theory Spec2Isabelle
  imports Complex_Main "HOL-Library.List_Lexorder" "HOL-Library.AList"
begin

section \<open>Strings and the regular-expression primitives of add\_stock.py\<close>

text \<open>
  A Python \<open>str\<close> is a sequence of Unicode code points; it is modelled as a list of
  natural numbers. The order of \<open>HOL-Library.List_Lexorder\<close> on such lists is the
  lexicographic order by code point, which is the order Python's \<open>sorted\<close> uses on strings.
  \<open>cp\<close> turns an ASCII literal into its code points.
\<close>

type_synonym pystr = "nat list"

definition cp :: "string \<Rightarrow> pystr" where
  "cp s = map of_char s"

text \<open>
  Two character tables of the interpreter's Unicode database are parameters of the model:
  \<open>re_digit\<close> is the class \<open>\d\<close> (every Unicode decimal digit, not only 0-9) and
  \<open>re_ieq p c\<close> says that the pattern character \<open>p\<close> matches the text character \<open>c\<close>
  under \<open>re.IGNORECASE\<close>.
\<close>

record unicode_db =
  re_digit :: "nat \<Rightarrow> bool"
  re_ieq :: "nat \<Rightarrow> nat \<Rightarrow> bool"

text \<open>The tables restricted to ASCII, for evaluating the model on concrete ASCII texts.\<close>

definition ascii_lower :: "nat \<Rightarrow> nat" where
  "ascii_lower c = (if 65 \<le> c \<and> c \<le> 90 then c + 32 else c)"

definition ascii_db :: unicode_db where
  "ascii_db = \<lparr> re_digit = (\<lambda>c. 48 \<le> c \<and> c \<le> 57),
                 re_ieq = (\<lambda>p c. ascii_lower p = ascii_lower c) \<rparr>"

text \<open>
  \<open>str.strip()\<close> removes leading and trailing whitespace; these are the code points
  for which \<open>str.isspace\<close> holds.
\<close>

definition is_space :: "nat \<Rightarrow> bool" where
  "is_space c \<longleftrightarrow>
     (9 \<le> c \<and> c \<le> 13) \<or> (28 \<le> c \<and> c \<le> 32) \<or> c = 0x85 \<or> c = 0xA0 \<or> c = 0x1680 \<or>
     (0x2000 \<le> c \<and> c \<le> 0x200A) \<or> c = 0x2028 \<or> c = 0x2029 \<or> c = 0x202F \<or>
     c = 0x205F \<or> c = 0x3000"

definition strip :: "pystr \<Rightarrow> pystr" where
  "strip s = rev (dropWhile is_space (rev (dropWhile is_space s)))"

text \<open>
  \<open>re.findall(r"\d{6}", text)\<close>: the pattern matches at a position when the next six
  characters are all digits; \<open>findall\<close> scans from the left, and after a match it continues
  behind the match (matches do not overlap), otherwise one character further on.
\<close>

definition match_d6 :: "(nat \<Rightarrow> bool) \<Rightarrow> pystr \<Rightarrow> pystr option" where
  "match_d6 d t = (if 6 \<le> length t \<and> list_all d (take 6 t) then Some (take 6 t) else None)"

fun findall_d6 :: "(nat \<Rightarrow> bool) \<Rightarrow> pystr \<Rightarrow> pystr list" where
  "findall_d6 d [] = []"
| "findall_d6 d (c # cs) =
     (case match_d6 d (c # cs) of
        Some m \<Rightarrow> m # findall_d6 d (drop 6 (c # cs))
      | None \<Rightarrow> findall_d6 d cs)"

text \<open>
  \<open>re.search(r"(k1|k2|...)", text, re.IGNORECASE)\<close> for literal alternatives: some
  alternative matches, character by character, at some position of the text.
\<close>

fun match_lit :: "(nat \<Rightarrow> nat \<Rightarrow> bool) \<Rightarrow> pystr \<Rightarrow> pystr \<Rightarrow> bool" where
  "match_lit e [] t = True"
| "match_lit e (p # ps) [] = False"
| "match_lit e (p # ps) (c # cs) = (e p c \<and> match_lit e ps cs)"

fun search_alt :: "(nat \<Rightarrow> nat \<Rightarrow> bool) \<Rightarrow> pystr list \<Rightarrow> pystr \<Rightarrow> bool" where
  "search_alt e alts [] = list_ex (\<lambda>p. match_lit e p []) alts"
| "search_alt e alts (c # cs) =
     (list_ex (\<lambda>p. match_lit e p (c # cs)) alts \<or> search_alt e alts cs)"

definition view_keywords :: "pystr list" where
  "view_keywords =
     [[0x67E5, 0x770B], [0x67E5, 0x8BE2], [0x5217, 0x8868], cp ''list'', cp ''ls'', cp ''cx'']"

definition clear_keywords :: "pystr list" where
  "clear_keywords = [[0x6E05, 0x7A7A], cp ''clear'']"


section \<open>The message loop of main (add\_stock.py, step 3)\<close>

text \<open>
  An update as \<open>getUpdates\<close> delivers it. \<open>u_message\<close> is \<open>None\<close> when the update has
  no \<open>"message"\<close> key; \<open>m_chat_id\<close> holds \<open>str(chat.id)\<close> when the message has a chat
  with an id; \<open>m_text\<close> and \<open>m_date\<close> are the optional \<open>"text"\<close> and \<open>"date"\<close> entries.
  The accessors below supply the defaults of the \<open>.get\<close> calls. Every update carries
  its integer \<open>update_id\<close>, and \<open>date\<close> is in whole seconds; \<open>current_time\<close>, the
  value of \<open>time.time()\<close>, is a real number.
\<close>

record message =
  m_chat_id :: "pystr option"
  m_text :: "pystr option"
  m_date :: "int option"

record update =
  update_id :: int
  u_message :: "message option"

definition get_chat_id :: "update \<Rightarrow> pystr" where
  "get_chat_id u =
     (case u_message u of None \<Rightarrow> []
      | Some m \<Rightarrow> (case m_chat_id m of None \<Rightarrow> [] | Some s \<Rightarrow> s))"

definition get_text :: "update \<Rightarrow> pystr" where
  "get_text u =
     (case u_message u of None \<Rightarrow> []
      | Some m \<Rightarrow> (case m_text m of None \<Rightarrow> [] | Some s \<Rightarrow> s))"

definition get_date :: "update \<Rightarrow> int" where
  "get_date u =
     (case u_message u of None \<Rightarrow> 0
      | Some m \<Rightarrow> (case m_date m of None \<Rightarrow> 0 | Some n \<Rightarrow> n))"

text \<open>
  The variables the loop updates: \<open>new_stocks\<close>, \<open>latest_update_id\<close>,
  \<open>should_clear\<close> and \<open>should_view\<close> (the spec's Intent).
\<close>

record intent =
  new_stocks :: "pystr set"
  latest_update_id :: int
  should_clear :: bool
  should_view :: bool

definition init_intent :: intent where
  "init_intent = \<lparr> new_stocks = {}, latest_update_id = 0,
                    should_clear = False, should_view = False \<rparr>"

text \<open>
  \<open>admin_chat_id\<close> is the value of the environment variable \<open>TG_CHAT_ID\<close>
  (\<open>None\<close> when unset); it is truthy when set and not empty.
\<close>

definition unauthorized :: "pystr option \<Rightarrow> update \<Rightarrow> bool" where
  "unauthorized admin_chat_id u =
     (case admin_chat_id of None \<Rightarrow> False
      | Some a \<Rightarrow> a \<noteq> [] \<and> get_chat_id u \<noteq> a)"

definition stale :: "real \<Rightarrow> update \<Rightarrow> bool" where
  "stale current_time u \<longleftrightarrow> current_time - real_of_int (get_date u) > 2400"

definition process_update ::
  "unicode_db \<Rightarrow> pystr option \<Rightarrow> real \<Rightarrow> intent \<Rightarrow> update \<Rightarrow> intent" where
  "process_update U admin_chat_id current_time st u =
     (let st1 = st\<lparr> latest_update_id := max (latest_update_id st) (update_id u) \<rparr> in
      if unauthorized admin_chat_id u then st1
      else if stale current_time u then st1
      else
        let txt = get_text u;
            st2 = (if search_alt (re_ieq U) view_keywords txt
                   then st1\<lparr> should_view := True \<rparr> else st1);
            st3 = (if search_alt (re_ieq U) clear_keywords txt
                   then st2\<lparr> should_clear := True \<rparr> else st2);
            codes = findall_d6 (re_digit U) txt
        in st3\<lparr> new_stocks := foldl (\<lambda>s code. insert code s) (new_stocks st3) codes \<rparr>)"

definition parse_updates ::
  "unicode_db \<Rightarrow> pystr option \<Rightarrow> real \<Rightarrow> update list \<Rightarrow> intent" where
  "parse_updates U admin_chat_id current_time updates =
     foldl (process_update U admin_chat_id current_time) init_intent updates"

definition accepted :: "pystr option \<Rightarrow> real \<Rightarrow> update \<Rightarrow> bool" where
  "accepted admin_chat_id current_time u \<longleftrightarrow>
     \<not> unauthorized admin_chat_id u \<and> \<not> stale current_time u"

definition msg_codes :: "unicode_db \<Rightarrow> update \<Rightarrow> pystr set" where
  "msg_codes U u = set (findall_d6 (re_digit U) (get_text u))"


section \<open>Digit runs\<close>

text \<open>
  The maximal runs of digits of a text, from left to right, and the consecutive blocks of
  six characters of a run (a rest of fewer than six characters is dropped).
\<close>

function digit_runs :: "(nat \<Rightarrow> bool) \<Rightarrow> pystr \<Rightarrow> pystr list" where
  "digit_runs d [] = []"
| "digit_runs d (c # cs) =
     (if d c then (c # takeWhile d cs) # digit_runs d (dropWhile d cs)
      else digit_runs d cs)"
  by pat_completeness auto
termination
  by (relation "measure (\<lambda>(d, t). length t)") (auto simp: less_Suc_eq_le length_dropWhile_le)

fun blocks6 :: "pystr \<Rightarrow> pystr list" where
  "blocks6 r = (if length r < 6 then [] else take 6 r # blocks6 (drop 6 r))"

declare blocks6.simps [simp del]

text \<open>
  The spec's wording of the extraction, for comparison with the code: "every maximal run of
  exactly 6 digits" of the texts of the authorized, fresh messages.
\<close>

definition maximal_six_digit_runs :: "(nat \<Rightarrow> bool) \<Rightarrow> pystr \<Rightarrow> pystr list" where
  "maximal_six_digit_runs d t = filter (\<lambda>r. length r = 6) (digit_runs d t)"

definition spec_codes_found ::
  "unicode_db \<Rightarrow> pystr option \<Rightarrow> real \<Rightarrow> update list \<Rightarrow> pystr set" where
  "spec_codes_found U admin_chat_id current_time updates =
     (\<Union>u\<in>set (filter (accepted admin_chat_id current_time) updates).
        set (maximal_six_digit_runs (re_digit U) (get_text u)))"


section \<open>The watchlist file stock\_list.txt\<close>

text \<open>
  The file is \<open>None\<close> when it does not exist, otherwise its decoded text. Reading in text
  mode translates \<open>\r\n\<close> and \<open>\r\<close> to \<open>\n\<close>; iterating over the file yields the lines
  with their terminating \<open>\n\<close> (the last line may lack it).
\<close>

fun universal_newlines :: "pystr \<Rightarrow> pystr" where
  "universal_newlines [] = []"
| "universal_newlines [c] = [if c = 13 then 10 else c]"
| "universal_newlines (c # c' # cs) =
     (if c = 13 \<and> c' = 10 then 10 # universal_newlines cs
      else if c = 13 then 10 # universal_newlines (c' # cs)
      else c # universal_newlines (c' # cs))"

function file_lines :: "pystr \<Rightarrow> pystr list" where
  "file_lines [] = []"
| "file_lines (c # cs) =
     (case dropWhile (\<lambda>x. x \<noteq> 10) (c # cs) of
        [] \<Rightarrow> [c # cs]
      | n # rest \<Rightarrow> (takeWhile (\<lambda>x. x \<noteq> 10) (c # cs) @ [n]) # file_lines rest)"
  by pat_completeness auto
termination
proof (relation "measure length")
  fix c :: nat and cs n rest
  assume "dropWhile (\<lambda>x. x \<noteq> 10) (c # cs) = n # rest"
  then have "length (n # rest) \<le> length (c # cs)"
    using length_dropWhile_le[of "\<lambda>x. x \<noteq> 10" "c # cs"] by simp
  then show "(rest, c # cs) \<in> measure length" by simp
qed simp

text \<open>
  Step 2 of main: \<open>{line.strip() for line in f if line.strip()}\<close>, the empty set when the
  file does not exist.
\<close>

definition read_stock_list :: "pystr option \<Rightarrow> pystr set" where
  "read_stock_list file =
     (case file of None \<Rightarrow> {}
      | Some content \<Rightarrow>
          set (map strip (filter (\<lambda>line. strip line \<noteq> [])
                 (file_lines (universal_newlines content)))))"

text \<open>
  The write of step 4: every element of \<open>sorted(final_list)\<close> followed by \<open>\n\<close>
  (the line separator of a POSIX system, where text mode writes \<open>\n\<close> as it is).
\<close>

definition write_stock_list :: "pystr set \<Rightarrow> pystr" where
  "write_stock_list final_list =
     concat (map (\<lambda>stock. stock @ [10]) (sorted_list_of_set final_list))"


section \<open>Step 4 of main: clear or add\<close>

text \<open>
  The change notice sent to the chat: whether the list was cleared, and the sorted codes of
  this batch (the notice has no list of codes when there are none).
\<close>

datatype notice = Cleared "pystr list" | Added "pystr list"

text \<open>
  The outcome of step 4: \<open>list_changed\<close>, the value of \<open>existing_stocks\<close> afterwards,
  the text written to the file (\<open>None\<close> when the file is not opened for writing) and the
  notice sent.
\<close>

record change =
  list_changed :: bool
  existing_after :: "pystr set"
  written :: "pystr option"
  change_notice :: "notice option"

definition reconcile :: "pystr set \<Rightarrow> intent \<Rightarrow> change" where
  "reconcile existing_stocks st =
     (if new_stocks st \<noteq> {} \<or> should_clear st then
        let final_list = (if should_clear st then new_stocks st
                          else existing_stocks \<union> new_stocks st)
        in \<lparr> list_changed = True,
             existing_after = final_list,
             written = Some (write_stock_list final_list),
             change_notice =
               Some ((if should_clear st then Cleared else Added)
                       (sorted_list_of_set (new_stocks st))) \<rparr>
      else \<lparr> list_changed = False, existing_after = existing_stocks,
             written = None, change_notice = None \<rparr>)"

text \<open>The file after step 4.\<close>

definition commit :: "pystr option \<Rightarrow> change \<Rightarrow> pystr option" where
  "commit file ch = (case written ch of None \<Rightarrow> file | Some content \<Rightarrow> Some content)"

text \<open>One reconciliation of the persisted file against an intent: read, decide, write.\<close>

definition run_reconciler :: "pystr option \<Rightarrow> intent \<Rightarrow> pystr option" where
  "run_reconciler file st = commit file (reconcile (read_stock_list file) st)"

text \<open>
  The whole of main. \<open>bot_token\<close> and \<open>admin_chat_id\<close> are the environment variables,
  \<open>updates\<close> is what \<open>get_telegram_updates\<close> returned (the empty list on any failure).
  The result is the file afterwards, the notice of step 4, the list shown by step 5 and the
  offset acknowledged in step 6.
\<close>

record outcome =
  file_after :: "pystr option"
  sent_notice :: "notice option"
  sent_view :: "pystr list option"
  ack_offset :: "int option"

definition main ::
  "unicode_db \<Rightarrow> pystr option \<Rightarrow> pystr option \<Rightarrow> update list \<Rightarrow> real \<Rightarrow> pystr option
     \<Rightarrow> outcome" where
  "main U bot_token admin_chat_id updates current_time file =
     (if bot_token = None \<or> bot_token = Some [] then
        \<lparr> file_after = file, sent_notice = None, sent_view = None, ack_offset = None \<rparr>
      else if updates = [] then
        \<lparr> file_after = file, sent_notice = None, sent_view = None, ack_offset = None \<rparr>
      else
        let existing_stocks = read_stock_list file;
            st = parse_updates U admin_chat_id current_time updates;
            ch = reconcile existing_stocks st
        in \<lparr> file_after = commit file ch,
             sent_notice = change_notice ch,
             sent_view = (if should_view st
                          then Some (sorted_list_of_set (existing_after ch)) else None),
             ack_offset = (if latest_update_id st > 0
                           then Some (latest_update_id st + 1) else None) \<rparr>)"

text \<open>
  A line that reading the file gives back unchanged: not empty, no whitespace at either
  end, no line break inside.
\<close>

definition plain_line :: "pystr \<Rightarrow> bool" where
  "plain_line s \<longleftrightarrow>
     s \<noteq> [] \<and> \<not> is_space (hd s) \<and> \<not> is_space (last s) \<and> 10 \<notin> set s \<and> 13 \<notin> set s"

text \<open>The spec's StockCode: a string of exactly six digits.\<close>

definition is_stock_code :: "(nat \<Rightarrow> bool) \<Rightarrow> pystr \<Rightarrow> bool" where
  "is_stock_code d s \<longleftrightarrow> length s = 6 \<and> list_all d s"


section \<open>Python values and the row store of sheet\_manager.py\<close>

text \<open>
  The values that callers pass and that cells hold: \<open>None\<close>, booleans, integers, floats
  and strings. \<open>truthy\<close> is Python's truth value, \<open>py_or a b\<close> the expression
  \<open>a or b\<close>.
\<close>

datatype pyval = PNone | PBool bool | PInt int | PFloat real | PStr pystr

fun truthy :: "pyval \<Rightarrow> bool" where
  "truthy PNone = False"
| "truthy (PBool b) = b"
| "truthy (PInt n) = (n \<noteq> 0)"
| "truthy (PFloat x) = (x \<noteq> 0)"
| "truthy (PStr s) = (s \<noteq> [])"

definition py_or :: "pyval \<Rightarrow> pyval \<Rightarrow> pyval" where
  "py_or a b = (if truthy a then a else b)"

text \<open>
  \<open>str(v)\<close>. The decimal form of an integer is computed; the text of a float is left to
  the parameter \<open>float_repr\<close>.
\<close>

function dec_nat :: "nat \<Rightarrow> pystr" where
  "dec_nat n = (if n < 10 then [48 + n] else dec_nat (n div 10) @ [48 + n mod 10])"
  by pat_completeness auto
termination
  by (relation "measure id") auto

declare dec_nat.simps [simp del]

definition py_str :: "(real \<Rightarrow> pystr) \<Rightarrow> pyval \<Rightarrow> pystr" where
  "py_str float_repr v =
     (case v of
        PNone \<Rightarrow> cp ''None''
      | PBool b \<Rightarrow> (if b then cp ''True'' else cp ''False'')
      | PInt n \<Rightarrow> (if n < 0 then 45 # dec_nat (nat (- n)) else dec_nat (nat n))
      | PFloat x \<Rightarrow> float_repr x
      | PStr s \<Rightarrow> s)"

text \<open>
  The worksheet behind \<open>self.sheet\<close> belongs to the gspread library, which is not among the
  sources; \<open>find\<close>, \<open>update_cell\<close>, \<open>append_row\<close> and \<open>delete_rows\<close> are modelled as
  the library documents them. The sheet is the list of its rows, the header first; rows
  and columns are numbered from 1 and a missing cell is the empty string.
  \<open>find(query)\<close>, called as the source calls it, without \<open>in_row\<close> or \<open>in_column\<close>,
  goes through the cells of the whole sheet row by row and yields the first cell whose
  value is the query string; the source uses only the row of that cell. A lookup that
  finds nothing raises \<open>CellNotFound\<close>; a cell or row outside the sheet is an
  \<open>APIError\<close>.
\<close>

type_synonym sheet = "pyval list list"

datatype sheet_error = CellNotFound | APIError

definition key_cell :: "pyval list \<Rightarrow> pyval" where
  "key_cell row = (case row of [] \<Rightarrow> PStr [] | c # _ \<Rightarrow> c)"

fun find_from :: "nat \<Rightarrow> sheet \<Rightarrow> pystr \<Rightarrow> sheet_error + nat" where
  "find_from n [] query = Inl CellNotFound"
| "find_from n (row # rows) query =
     (if PStr query \<in> set row then Inr n else find_from (Suc n) rows query)"

definition sheet_find :: "sheet \<Rightarrow> pystr \<Rightarrow> sheet_error + nat" where
  "sheet_find sh query = find_from 1 sh query"

definition set_col :: "pyval list \<Rightarrow> nat \<Rightarrow> pyval \<Rightarrow> pyval list" where
  "set_col row col v = (row @ replicate (col - length row) (PStr []))[col - 1 := v]"

definition update_cell :: "sheet \<Rightarrow> nat \<Rightarrow> nat \<Rightarrow> pyval \<Rightarrow> sheet_error + sheet" where
  "update_cell sh r col v =
     (if 1 \<le> r \<and> r \<le> length sh \<and> 1 \<le> col
      then Inr (sh[r - 1 := set_col (sh ! (r - 1)) col v])
      else Inl APIError)"

definition append_row :: "sheet \<Rightarrow> pyval list \<Rightarrow> sheet" where
  "append_row sh row = sh @ [row]"

definition delete_rows :: "sheet \<Rightarrow> nat \<Rightarrow> sheet_error + sheet" where
  "delete_rows sh r =
     (if 1 \<le> r \<and> r \<le> length sh then Inr (take (r - 1) sh @ drop r sh)
      else Inl APIError)"

text \<open>
  \<open>add_or_update_stock\<close>. \<open>code\<close> is the value of \<open>str(code)\<close>, \<open>today\<close> the value of
  \<open>datetime.now().strftime("%Y-%m-%d")\<close>. The result is the sheet afterwards and the
  string returned, or the exception that leaves the method.
\<close>

definition add_or_update_stock ::
  "pystr \<Rightarrow> sheet \<Rightarrow> pystr \<Rightarrow> pyval \<Rightarrow> pyval \<Rightarrow> pyval \<Rightarrow> sheet_error + sheet \<times> pystr" where
  "add_or_update_stock today sh code date0 qty0 price0 =
     (let date = py_or date0 (PStr today);
          qty = py_or qty0 (PInt 0);
          price = py_or price0 (PFloat 0)
      in case sheet_find sh code of
           Inr r \<Rightarrow>
             (case update_cell sh r 2 date of
                Inl e \<Rightarrow> Inl e
              | Inr sh1 \<Rightarrow>
                  (case update_cell sh1 r 3 qty of
                     Inl e \<Rightarrow> Inl e
                   | Inr sh2 \<Rightarrow>
                       (case update_cell sh2 r 4 price of
                          Inl e \<Rightarrow> Inl e
                        | Inr sh3 \<Rightarrow> Inr (sh3, cp ''Updated''))))
         | Inl CellNotFound \<Rightarrow> Inr (append_row sh [PStr code, date, qty, price], cp ''Added'')
         | Inl e \<Rightarrow> Inl e)"

definition remove_stock :: "sheet \<Rightarrow> pystr \<Rightarrow> sheet_error + sheet \<times> bool" where
  "remove_stock sh code =
     (case sheet_find sh code of
        Inr r \<Rightarrow> (case delete_rows sh r of Inl e \<Rightarrow> Inl e | Inr sh' \<Rightarrow> Inr (sh', True))
      | Inl CellNotFound \<Rightarrow> Inr (sh, False)
      | Inl e \<Rightarrow> Inl e)"

text \<open>
  \<open>get_all_stocks\<close>. \<open>records\<close> is what \<open>get_all_records\<close> returned, one dictionary
  from header label to cell value per row, or \<open>None\<close> when it raised. A dictionary is a
  list of key-value pairs in insertion order, with distinct keys; assigning to a key
  replaces its value when the key is present and appends the pair otherwise.
\<close>

fun contains :: "pystr \<Rightarrow> pystr \<Rightarrow> bool" where
  "contains needle [] = (needle = [])"
| "contains needle (c # cs) =
     (take (length needle) (c # cs) = needle \<or> contains needle cs)"

record stock_info =
  s_date :: pystr
  s_qty :: pystr
  s_price :: pystr

definition dict_get :: "(pystr \<times> pyval) list \<Rightarrow> pystr \<Rightarrow> pyval \<Rightarrow> pyval" where
  "dict_get row k dflt = (case map_of row k of None \<Rightarrow> dflt | Some v \<Rightarrow> v)"

definition str_or :: "pystr \<Rightarrow> pystr \<Rightarrow> pystr" where
  "str_or a b = (if a \<noteq> [] then a else b)"

definition row_code :: "(real \<Rightarrow> pystr) \<Rightarrow> (pystr \<times> pyval) list \<Rightarrow> pystr option" where
  "row_code float_repr row =
     (case find (\<lambda>k. contains (cp ''Code'') k) (map fst row) of
        None \<Rightarrow> None
      | Some code_key \<Rightarrow>
          if code_key = [] then None
          else let code = strip (py_str float_repr (dict_get row code_key PNone))
               in if code \<noteq> [] then Some code else None)"

definition row_info :: "(real \<Rightarrow> pystr) \<Rightarrow> pystr \<Rightarrow> (pystr \<times> pyval) list \<Rightarrow> stock_info" where
  "row_info float_repr today row =
     \<lparr> s_date = str_or (strip (py_str float_repr (dict_get row (cp ''BuyDate'') (PStr [])))) today,
       s_qty = str_or (strip (py_str float_repr (dict_get row (cp ''Qty'') (PStr [])))) (cp ''0''),
       s_price = str_or (strip (py_str float_repr (dict_get row (cp ''Price'') (PStr []))))
                   (cp ''0.0'') \<rparr>"

definition stocks_step ::
  "(real \<Rightarrow> pystr) \<Rightarrow> pystr \<Rightarrow> (pystr \<times> stock_info) list \<Rightarrow> (pystr \<times> pyval) list
     \<Rightarrow> (pystr \<times> stock_info) list" where
  "stocks_step float_repr today stocks row =
     (case row_code float_repr row of
        None \<Rightarrow> stocks
      | Some code \<Rightarrow> AList.update code (row_info float_repr today row) stocks)"

definition get_all_stocks ::
  "(real \<Rightarrow> pystr) \<Rightarrow> pystr \<Rightarrow> (pystr \<times> pyval) list list option
     \<Rightarrow> (pystr \<times> stock_info) list" where
  "get_all_stocks float_repr today records =
     (case records of
        None \<Rightarrow> []
      | Some rows \<Rightarrow> foldl (stocks_step float_repr today) [] rows)"


section \<open>Example inputs\<close>

definition mk_update :: "int \<Rightarrow> pystr \<Rightarrow> pystr \<Rightarrow> int \<Rightarrow> update" where
  "mk_update n chat txt date =
     \<lparr> update_id = n,
       u_message = Some \<lparr> m_chat_id = Some chat, m_text = Some txt, m_date = Some date \<rparr> \<rparr>"

definition ex_long_run :: "update list" where
  "ex_long_run = [mk_update 1 (cp ''42'') (cp ''1234567'') 0]"

text \<open>
  A batch read at time 1000000 with authorized sender 42: a stale message, two fresh
  authorized ones, and a fresh message from another sender (its text ends in the clear
  keyword, code points 0x6E05 0x7A7A).
\<close>

definition ex_before :: "update list" where
  "ex_before =
     [mk_update 1 (cp ''42'') (cp ''300750 clear'') 900000,
      mk_update 2 (cp ''42'') (cp ''ls 600970'') 999990,
      mk_update 3 (cp ''42'') (cp ''600970 6010881234'') 999980]"

definition ex_intruder :: update where
  "ex_intruder = mk_update 4 (cp ''7'') (cp ''999999 '' @ [0x6E05, 0x7A7A]) 999990"

text \<open>
  A watchlist file of two lines, the second one ended by \<open>\r\n\<close>, an intent that clears
  and adds one code, and the intent that only adds the codes \<open>A\<close>.
\<close>

definition ex_file :: pystr where
  "ex_file = cp ''000001'' @ [10] @ cp ''600519'' @ [13, 10]"

definition ex_clear_intent :: intent where
  "ex_clear_intent = \<lparr> new_stocks = {cp ''600970''}, latest_update_id = 5,
                        should_clear = True, should_view = False \<rparr>"

definition add_intent :: "pystr set \<Rightarrow> intent" where
  "add_intent A = \<lparr> new_stocks = A, latest_update_id = 0,
                    should_clear = False, should_view = False \<rparr>"

text \<open>
  A sheet header, the date used as today, a data row as \<open>add_or_update_stock\<close> appends
  it, and three records as \<open>get_all_records\<close> returns them: the first and the third
  carry the same code once stripped, the second has no code column.
\<close>

definition ex_header :: "pyval list" where
  "ex_header = [PStr (cp ''Code''), PStr (cp ''BuyDate''), PStr (cp ''Qty''), PStr (cp ''Price'')]"

definition ex_today :: pystr where
  "ex_today = cp ''2024-05-01''"

definition ex_row :: "pystr \<Rightarrow> pystr \<Rightarrow> pyval list" where
  "ex_row code qty = [PStr code, PStr ex_today, PStr qty, PFloat 0]"

text \<open>
  A sheet whose only data row is the code 600970 with qty "100", and a watchlist file
  whose only line is not a stock code.
\<close>

definition ex_sheet :: sheet where
  "ex_sheet = [ex_header, ex_row (cp ''600970'') (cp ''100'')]"

definition ex_junk_file :: pystr where
  "ex_junk_file = cp ''hello world'' @ [10]"

definition ex_rec1 :: "(pystr \<times> pyval) list" where
  "ex_rec1 = [(cp ''Code'', PInt 600970), (cp ''BuyDate'', PStr (cp ''2024-01-02'')),
              (cp ''Qty'', PInt 100), (cp ''Price'', PStr (cp ''12.5''))]"

definition ex_rec2 :: "(pystr \<times> pyval) list" where
  "ex_rec2 = [(cp ''Name'', PStr (cp ''x'')), (cp ''Qty'', PInt 7)]"

definition ex_rec3 :: "(pystr \<times> pyval) list" where
  "ex_rec3 = [(cp ''Code'', PStr (cp '' 600970 '')), (cp ''BuyDate'', PStr []),
              (cp ''Qty'', PInt 200), (cp ''Price'', PStr [])]"


section \<open>Properties of the message loop\<close>

lemma ieq_ascii: "re_ieq ascii_db p c = (ascii_lower p = ascii_lower c)"
  by (simp add: ascii_db_def)

lemma digit_ascii: "re_digit ascii_db c = (48 \<le> c \<and> c \<le> 57)"
  by (simp add: ascii_db_def)

lemmas eval_defs = parse_updates_def init_intent_def process_update_def Let_def
  mk_update_def cp_def get_text_def get_chat_id_def get_date_def unauthorized_def stale_def
  accepted_def match_d6_def view_keywords_def clear_keywords_def ieq_ascii digit_ascii
  ascii_lower_def

subsection \<open>The scan in terms of digit runs\<close>

lemma findall_short:
  "list_all d r \<Longrightarrow> length r < 6 \<Longrightarrow> (t = [] \<or> \<not> d (hd t)) \<Longrightarrow>
   findall_d6 d (r @ t) = findall_d6 d t"
proof (induction r)
  case Nil
  then show ?case by simp
next
  case (Cons c r)
  have "match_d6 d ((c # r) @ t) = None"
  proof (cases t)
    case Nil
    with Cons.prems show ?thesis by (simp add: match_d6_def)
  next
    case (Cons x xs)
    with Cons.prems(3) have nx: "\<not> d x" by simp
    have "x \<in> set (take 6 ((c # r) @ t))"
      using Cons.prems(2) Cons by (auto simp: take_Cons' in_set_conv_nth nth_append)
    with nx show ?thesis by (auto simp: match_d6_def list_all_iff)
  qed
  then show ?case using Cons by simp
qed

lemma findall_run:
  "list_all d r \<Longrightarrow> (t = [] \<or> \<not> d (hd t)) \<Longrightarrow>
   findall_d6 d (r @ t) = blocks6 r @ findall_d6 d t"
proof (induction r rule: blocks6.induct)
  case (1 r)
  show ?case
  proof (cases "length r < 6")
    case True
    with 1 show ?thesis by (simp add: findall_short blocks6.simps)
  next
    case False
    then obtain c cs where r: "r = c # cs" by (cases r) auto
    from False "1.prems" have m: "match_d6 d (r @ t) = Some (take 6 r)"
      by (auto simp: match_d6_def list_all_iff dest: in_set_takeD)
    have "list_all d (drop 6 r)"
      using "1.prems"(1) by (auto simp: list_all_iff dest: in_set_dropD)
    with 1 False have "findall_d6 d (drop 6 r @ t) = blocks6 (drop 6 r) @ findall_d6 d t"
      by simp
    moreover have "findall_d6 d (r @ t) = take 6 r # findall_d6 d (drop 6 (r @ t))"
      using m by (simp add: r)
    ultimately show ?thesis using False by (simp add: blocks6.simps[of r])
  qed
qed

lemma findall_d6_runs: "findall_d6 d t = concat (map blocks6 (digit_runs d t))"
proof (induction d t rule: digit_runs.induct)
  case (1 d)
  then show ?case by simp
next
  case (2 d c cs)
  show ?case
  proof (cases "d c")
    case True
    have all: "list_all d (c # takeWhile d cs)"
      using True by (auto simp: list_all_iff dest: set_takeWhileD)
    have nxt: "dropWhile d cs = [] \<or> \<not> d (hd (dropWhile d cs))"
      using hd_dropWhile[of d cs] by blast
    have "findall_d6 d (c # cs) = blocks6 (c # takeWhile d cs) @ findall_d6 d (dropWhile d cs)"
      using findall_run[OF all nxt] by simp
    with 2 True show ?thesis by simp
  next
    case False
    then have "match_d6 d (c # cs) = None" by (auto simp: match_d6_def take_Cons')
    with 2 False show ?thesis by simp
  qed
qed

subsection \<open>The loop, variable by variable\<close>

lemma foldl_insert: "foldl (\<lambda>s code. insert code s) S codes = S \<union> set codes"
  by (induction codes arbitrary: S) auto

lemma process_update_rejected:
  "\<not> accepted a now u \<Longrightarrow>
   process_update U a now st u =
     st\<lparr> latest_update_id := max (latest_update_id st) (update_id u) \<rparr>"
  by (auto simp: process_update_def accepted_def Let_def)

lemma process_update_accepted:
  "accepted a now u \<Longrightarrow>
   process_update U a now st u =
     \<lparr> new_stocks = new_stocks st \<union> msg_codes U u,
       latest_update_id = max (latest_update_id st) (update_id u),
       should_clear = (should_clear st \<or> search_alt (re_ieq U) clear_keywords (get_text u)),
       should_view = (should_view st \<or> search_alt (re_ieq U) view_keywords (get_text u)) \<rparr>"
  by (simp add: process_update_def accepted_def Let_def foldl_insert msg_codes_def)

lemma loop_new_stocks:
  "new_stocks (foldl (process_update U a now) st us) =
     new_stocks st \<union> (\<Union>u\<in>set (filter (accepted a now) us). msg_codes U u)"
proof (induction us arbitrary: st)
  case Nil
  then show ?case by simp
next
  case (Cons u us)
  show ?case
  proof (cases "accepted a now u")
    case True
    then show ?thesis by (simp add: Cons.IH process_update_accepted Un_assoc)
  next
    case False
    then show ?thesis by (simp add: Cons.IH process_update_rejected)
  qed
qed

lemma loop_should_clear:
  "should_clear (foldl (process_update U a now) st us) =
     (should_clear st \<or>
      (\<exists>u\<in>set us. accepted a now u \<and> search_alt (re_ieq U) clear_keywords (get_text u)))"
proof (induction us arbitrary: st)
  case Nil
  then show ?case by simp
next
  case (Cons u us)
  show ?case
    by (cases "accepted a now u")
       (auto simp: Cons.IH process_update_accepted process_update_rejected)
qed

lemma loop_should_view:
  "should_view (foldl (process_update U a now) st us) =
     (should_view st \<or>
      (\<exists>u\<in>set us. accepted a now u \<and> search_alt (re_ieq U) view_keywords (get_text u)))"
proof (induction us arbitrary: st)
  case Nil
  then show ?case by simp
next
  case (Cons u us)
  show ?case
    by (cases "accepted a now u")
       (auto simp: Cons.IH process_update_accepted process_update_rejected)
qed

lemma loop_latest:
  "latest_update_id (foldl (process_update U a now) st us) =
     foldl max (latest_update_id st) (map update_id us)"
proof (induction us arbitrary: st)
  case Nil
  then show ?case by simp
next
  case (Cons u us)
  show ?case
    by (cases "accepted a now u")
       (simp_all add: Cons.IH process_update_accepted process_update_rejected)
qed

lemma foldl_max_pull: "foldl max (max m n) ns = max (foldl max m ns) (n::int)"
proof (induction ns arbitrary: m)
  case Nil
  then show ?case by simp
next
  case (Cons a ns)
  have "max (max m n) a = max (max m a) n" by (simp add: max.assoc max.commute)
  then show ?case using Cons.IH[of "max m a"] by simp
qed

lemma ex_before_intent:
  "parse_updates ascii_db (Some (cp ''42'')) 1000000 ex_before =
     \<lparr> new_stocks = {cp ''600970'', cp ''601088''}, latest_update_id = 3,
       should_clear = False, should_view = True \<rparr>"
  by (simp add: ex_before_def eval_defs insert_commute)

lemma ex_batch_intent:
  "parse_updates ascii_db (Some (cp ''42'')) 1000000 (ex_before @ [ex_intruder]) =
     \<lparr> new_stocks = {cp ''600970'', cp ''601088''}, latest_update_id = 4,
       should_clear = False, should_view = True \<rparr>"
  by (simp add: ex_before_def ex_intruder_def eval_defs insert_commute)

lemma ex_intruder_text:
  "search_alt (re_ieq ascii_db) clear_keywords (get_text ex_intruder) \<and>
   findall_d6 (re_digit ascii_db) (get_text ex_intruder) = [cp ''999999'']"
  by (simp add: ex_intruder_def eval_defs)


lemma blocks6_six: "length r = 6 \<Longrightarrow> blocks6 r = [r]"
  by (simp add: blocks6.simps[of r] blocks6.simps[of "[]"])

lemma blocks6_short: "length r < 6 \<Longrightarrow> blocks6 r = []"
  by (simp add: blocks6.simps[of r])


subsection \<open>Claims about the extraction\<close>

text \<open>
  C1, as the spec states it: the codes found are exactly the maximal runs of exactly six
  digits of the accepted messages, so that a longer run contributes nothing. The code
  differs: from the seven digits 1234567 it takes the candidate 123456.
\<close>

theorem codes_found_long_run_counterexample:
  "new_stocks (parse_updates ascii_db None 0 ex_long_run) = {cp ''123456''} \<and>
   spec_codes_found ascii_db None 0 ex_long_run = {}"
  by (simp add: ex_long_run_def eval_defs spec_codes_found_def maximal_six_digit_runs_def)

text \<open>
  C1, amended: the codes found are exactly the blocks of a left-to-right scan without
  overlap over the texts of the authorized, fresh messages. Every maximal digit run of
  length \<open>n\<close> contributes its first \<open>n div 6\<close> consecutive blocks of six digits: a
  run of exactly six digits contributes itself, a shorter run nothing, a longer run its
  leading blocks. All matches of all accepted messages are collected into one set, which
  depends on the set of accepted messages only, not on their order or multiplicity. In
  particular every maximal run of exactly six digits is among the codes found.
\<close>

theorem codes_found_blocks:
  "new_stocks (parse_updates U admin_chat_id current_time updates) =
     (\<Union>u\<in>set (filter (accepted admin_chat_id current_time) updates).
        \<Union>r\<in>set (digit_runs (re_digit U) (get_text u)). set (blocks6 r)) \<and>
   spec_codes_found U admin_chat_id current_time updates \<subseteq>
     new_stocks (parse_updates U admin_chat_id current_time updates)"
proof -
  have eq: "new_stocks (parse_updates U admin_chat_id current_time updates) =
     (\<Union>u\<in>set (filter (accepted admin_chat_id current_time) updates).
        \<Union>r\<in>set (digit_runs (re_digit U) (get_text u)). set (blocks6 r))"
    by (simp add: parse_updates_def loop_new_stocks init_intent_def msg_codes_def findall_d6_runs)
  have "spec_codes_found U admin_chat_id current_time updates \<subseteq>
     (\<Union>u\<in>set (filter (accepted admin_chat_id current_time) updates).
        \<Union>r\<in>set (digit_runs (re_digit U) (get_text u)). set (blocks6 r))"
  proof
    fix c
    assume "c \<in> spec_codes_found U admin_chat_id current_time updates"
    then obtain u where u: "u \<in> set (filter (accepted admin_chat_id current_time) updates)"
      and c: "c \<in> set (digit_runs (re_digit U) (get_text u))" and l: "length c = 6"
      unfolding spec_codes_found_def maximal_six_digit_runs_def by auto
    from l have "c \<in> set (blocks6 c)" by (simp add: blocks6_six)
    with u c show "c \<in> (\<Union>u\<in>set (filter (accepted admin_chat_id current_time) updates).
        \<Union>r\<in>set (digit_runs (re_digit U) (get_text u)). set (blocks6 r))"
      by blast
  qed
  with eq show ?thesis by simp
qed

theorem codes_found_blocks_witness:
  "new_stocks (parse_updates ascii_db (Some (cp ''42'')) 1000000 (ex_before @ [ex_intruder])) =
     {cp ''600970'', cp ''601088''} \<and>
   (\<Union>u\<in>set (filter (accepted (Some (cp ''42'')) 1000000) (ex_before @ [ex_intruder])).
        \<Union>r\<in>set (digit_runs (re_digit ascii_db) (get_text u)). set (blocks6 r)) =
     {cp ''600970'', cp ''601088''}"
  using codes_found_blocks[of ascii_db "Some (cp ''42'')" 1000000 "ex_before @ [ex_intruder]"]
  by (simp only: ex_batch_intent intent.simps simp_thms)

text \<open>
  C7: a message that is rejected, because an authorized sender is configured and the
  message comes from another chat, or because it is older than 2400 seconds, changes
  neither the codes found nor the clear and view flags of the batch it is added to; its
  update id still enters the maximum kept for the acknowledgment.
\<close>

theorem rejected_message_ignored:
  assumes "unauthorized admin_chat_id u \<or> stale current_time u"
  shows "new_stocks (parse_updates U admin_chat_id current_time (before @ u # after)) =
           new_stocks (parse_updates U admin_chat_id current_time (before @ after)) \<and>
         should_clear (parse_updates U admin_chat_id current_time (before @ u # after)) =
           should_clear (parse_updates U admin_chat_id current_time (before @ after)) \<and>
         should_view (parse_updates U admin_chat_id current_time (before @ u # after)) =
           should_view (parse_updates U admin_chat_id current_time (before @ after)) \<and>
         latest_update_id (parse_updates U admin_chat_id current_time (before @ u # after)) =
           max (latest_update_id (parse_updates U admin_chat_id current_time (before @ after)))
               (update_id u)"
proof -
  from assms have rej: "\<not> accepted admin_chat_id current_time u"
    by (auto simp: accepted_def)
  then show ?thesis
    unfolding parse_updates_def loop_new_stocks loop_should_clear loop_should_view loop_latest
    by (simp add: foldl_max_pull)
qed

theorem rejected_message_ignored_witness:
  "unauthorized (Some (cp ''42'')) ex_intruder \<and>
   new_stocks (parse_updates ascii_db (Some (cp ''42'')) 1000000 (ex_before @ [ex_intruder])) =
     new_stocks (parse_updates ascii_db (Some (cp ''42'')) 1000000 ex_before) \<and>
   \<not> should_clear (parse_updates ascii_db (Some (cp ''42'')) 1000000 (ex_before @ [ex_intruder])) \<and>
   latest_update_id (parse_updates ascii_db (Some (cp ''42'')) 1000000 ex_before) = 3 \<and>
   latest_update_id (parse_updates ascii_db (Some (cp ''42'')) 1000000 (ex_before @ [ex_intruder])) = 4"
proof -
  have u: "unauthorized (Some (cp ''42'')) ex_intruder"
    by (simp add: ex_intruder_def eval_defs)
  from rejected_message_ignored[of "Some (cp ''42'')" ex_intruder 1000000 ascii_db ex_before "[]"] u
  show ?thesis by (simp add: ex_before_intent ex_intruder_def mk_update_def)
qed


section \<open>Properties of the watchlist file and of step 4\<close>

lemma is_space_nl: "is_space 10" "is_space 13"
  by (simp_all add: is_space_def)

lemma universal_newlines_id: "13 \<notin> set t \<Longrightarrow> universal_newlines t = t"
  by (induction t rule: universal_newlines.induct) auto

lemma universal_newlines_no_cr: "13 \<notin> set (universal_newlines t)"
  by (induction t rule: universal_newlines.induct) auto

lemma file_lines_written:
  "\<forall>s\<in>set ls. 10 \<notin> set s \<Longrightarrow>
   file_lines (concat (map (\<lambda>s. s @ [10]) ls)) = map (\<lambda>s. s @ [10]) ls"
proof (induction ls)
  case Nil
  then show ?case by simp
next
  case (Cons s ls)
  let ?rest = "concat (map (\<lambda>s. s @ [10]) ls)"
  from Cons.prems have s: "10 \<notin> set s" by simp
  then have tw: "takeWhile (\<lambda>x. x \<noteq> 10) (s @ 10 # ?rest) = s"
    by (auto simp: takeWhile_append2 takeWhile_tail)
  from s have dw: "dropWhile (\<lambda>x. x \<noteq> 10) (s @ 10 # ?rest) = 10 # ?rest"
    by (auto simp: dropWhile_append2 dropWhile_append3)
  obtain c cs where e: "s @ 10 # ?rest = c # cs" by (cases "s @ 10 # ?rest") auto
  have "file_lines (s @ 10 # ?rest) = (s @ [10]) # file_lines ?rest"
    unfolding e using tw dw unfolding e by simp
  with Cons show ?case by simp
qed

lemma strip_plain_nl: "plain_line s \<Longrightarrow> strip (s @ [10]) = s"
proof -
  assume p: "plain_line s"
  then obtain c cs where s: "s = c # cs" by (cases s) (auto simp: plain_line_def)
  from p s have "\<not> is_space c" by (simp add: plain_line_def)
  then have a: "dropWhile is_space (s @ [10]) = s @ [10]" by (simp add: s)
  from p have "rev s \<noteq> [] \<and> \<not> is_space (hd (rev s))"
    by (simp add: plain_line_def hd_rev)
  then have b: "dropWhile is_space (rev s) = rev s" by (cases "rev s") auto
  show ?thesis by (simp add: strip_def a b is_space_nl)
qed

lemma strip_written_lines:
  "\<forall>s\<in>set ls. plain_line s \<Longrightarrow>
   map strip (filter (\<lambda>line. strip line \<noteq> []) (map (\<lambda>s. s @ [10]) ls)) = ls"
proof (induction ls)
  case Nil
  then show ?case by simp
next
  case (Cons s ls)
  then have "strip (s @ [10]) = s" and "s \<noteq> []"
    by (simp_all add: strip_plain_nl plain_line_def)
  with Cons show ?case by simp
qed

lemma read_written:
  assumes "finite S" and "\<forall>s\<in>S. plain_line s"
  shows "read_stock_list (Some (write_stock_list S)) = S"
proof -
  let ?ls = "sorted_list_of_set S"
  from assms have ls: "set ?ls = S" by simp
  with assms have pl: "\<forall>s\<in>set ?ls. plain_line s" by simp
  then have "13 \<notin> set (concat (map (\<lambda>s. s @ [10]) ?ls))"
    by (auto simp: plain_line_def)
  then have u: "universal_newlines (write_stock_list S) = write_stock_list S"
    unfolding write_stock_list_def by (rule universal_newlines_id)
  from pl have fl: "file_lines (write_stock_list S) = map (\<lambda>s. s @ [10]) ?ls"
    unfolding write_stock_list_def by (intro file_lines_written) (auto simp: plain_line_def)
  have "map strip (filter (\<lambda>line. strip line \<noteq> []) (map (\<lambda>s. s @ [10]) ?ls)) = ?ls"
    using pl by (rule strip_written_lines)
  then show ?thesis by (simp add: read_stock_list_def u fl ls)
qed

lemma strip_snoc_space: "is_space c \<Longrightarrow> strip (b @ [c]) = strip b"
proof (cases "\<forall>x\<in>set b. is_space x")
  case True
  assume "is_space c"
  with True have "dropWhile is_space (b @ [c]) = []" and "dropWhile is_space b = []"
    by (auto dest: set_dropWhileD)
  then show ?thesis by (simp only: strip_def)
next
  case False
  assume c: "is_space c"
  from False obtain x where "x \<in> set b" and "\<not> is_space x" by blast
  then have "dropWhile is_space (b @ [c]) = dropWhile is_space b @ [c]"
    by (rule dropWhile_append1)
  with c show ?thesis by (simp add: strip_def)
qed

lemma set_strip: "set (strip s) \<subseteq> set s"
proof -
  have "set (dropWhile is_space (rev (dropWhile is_space s))) \<subseteq> set (rev (dropWhile is_space s))"
    by (rule set_dropWhileD[THEN subsetI]) 
  also have "\<dots> \<subseteq> set s" by (auto dest: set_dropWhileD)
  finally show ?thesis by (simp add: strip_def)
qed

lemma strip_ends:
  assumes "strip s \<noteq> []"
  shows "\<not> is_space (hd (strip s)) \<and> \<not> is_space (last (strip s))"
proof -
  let ?t = "dropWhile is_space s"
  let ?r = "dropWhile is_space (rev ?t)"
  from assms have r: "?r \<noteq> []" by (simp add: strip_def)
  then have "\<not> is_space (hd ?r)" by (rule hd_dropWhile)
  with r have l: "\<not> is_space (last (strip s))" by (simp add: strip_def last_rev)
  have "rev (takeWhile is_space (rev ?t) @ ?r) = ?t"
    by (simp only: takeWhile_dropWhile_id rev_rev_ident)
  then have t: "?t = rev ?r @ rev (takeWhile is_space (rev ?t))"
    by (simp only: rev_append)
  from r have "hd (rev ?r @ rev (takeWhile is_space (rev ?t))) = hd (rev ?r)" by simp
  with t have hd: "hd ?t = hd (rev ?r)" by simp
  have "?t \<noteq> []" by (subst t) (use r in simp)
  then have "\<not> is_space (hd ?t)" by (rule hd_dropWhile)
  with hd l show ?thesis by (simp add: strip_def)
qed

lemma file_lines_shape:
  "l \<in> set (file_lines t) \<Longrightarrow>
   \<exists>b. (l = b @ [10] \<or> l = b) \<and> 10 \<notin> set b \<and> set b \<subseteq> set t"
proof (induction t arbitrary: l rule: file_lines.induct)
  case 1
  then show ?case by simp
next
  case (2 c cs)
  let ?tw = "takeWhile (\<lambda>x. x \<noteq> 10) (c # cs)"
  have tw: "10 \<notin> set ?tw" by (auto dest: set_takeWhileD)
  have tws: "set ?tw \<subseteq> set (c # cs)" by (auto dest: set_takeWhileD)
  show ?case
  proof (cases "dropWhile (\<lambda>x. x \<noteq> 10) (c # cs)")
    case Nil
    then have "\<forall>x\<in>set (c # cs). x \<noteq> 10" by (simp only: dropWhile_eq_Nil_conv)
    moreover from Nil "2.prems" have "l = c # cs" by simp
    ultimately show ?thesis by (intro exI[of _ "c # cs"]) auto
  next
    case (Cons n rest)
    then have n: "n = 10" using hd_dropWhile[of "\<lambda>x. x \<noteq> 10" "c # cs"] by simp
    have "set (dropWhile (\<lambda>x. x \<noteq> 10) (c # cs)) \<subseteq> set (c # cs)"
      by (auto dest: set_dropWhileD)
    with Cons have rs: "set rest \<subseteq> set (c # cs)" by auto
    from Cons "2.prems" have "l = ?tw @ [n] \<or> l \<in> set (file_lines rest)" by simp
    then show ?thesis
    proof
      assume "l = ?tw @ [n]"
      with n tw tws show ?thesis by (intro exI[of _ ?tw]) simp
    next
      assume "l \<in> set (file_lines rest)"
      from "2.IH"[OF Cons this] rs show ?thesis by blast
    qed
  qed
qed

lemma read_plain: "s \<in> read_stock_list file \<Longrightarrow> plain_line s"
proof (cases "file")
  case None
  assume "s \<in> read_stock_list file"
  with None show ?thesis by (simp add: read_stock_list_def)
next
  case (Some content)
  assume "s \<in> read_stock_list file"
  with Some obtain l where l: "l \<in> set (file_lines (universal_newlines content))"
    and s: "s = strip l" and ne: "strip l \<noteq> []"
    by (auto simp: read_stock_list_def)
  from file_lines_shape[OF l] obtain b where
    b: "l = b @ [10] \<or> l = b" "10 \<notin> set b" "set b \<subseteq> set (universal_newlines content)"
    by blast
  from b(1) have sb: "strip l = strip b" by (auto simp: strip_snoc_space is_space_nl)
  from b(3) have "13 \<notin> set b" using universal_newlines_no_cr[of content] by blast
  with b(2) set_strip[of b] have "10 \<notin> set (strip b) \<and> 13 \<notin> set (strip b)" by blast
  with strip_ends[OF ne] ne show ?thesis by (simp add: plain_line_def s sb)
qed

lemma finite_read: "finite (read_stock_list file)"
  by (cases "file") (simp_all add: read_stock_list_def)

lemma findall_d6_props: "m \<in> set (findall_d6 d t) \<Longrightarrow> length m = 6 \<and> list_all d m"
proof (induction d t rule: findall_d6.induct)
  case (1 d)
  then show ?case by simp
next
  case (2 d c cs)
  then show ?case
    by (cases "match_d6 d (c # cs)") (auto simp: match_d6_def split: if_splits)
qed

lemma finite_new_stocks: "finite (new_stocks (parse_updates U a now updates))"
  by (simp add: parse_updates_def loop_new_stocks init_intent_def msg_codes_def)

lemma new_stocks_digits:
  "s \<in> new_stocks (parse_updates U a now updates) \<Longrightarrow> length s = 6 \<and> list_all (re_digit U) s"
  by (auto simp: parse_updates_def loop_new_stocks init_intent_def msg_codes_def
      dest: findall_d6_props)

lemma digits_plain:
  assumes "\<forall>c. d c \<longrightarrow> \<not> is_space c" and "length s = 6" and "list_all d s"
  shows "plain_line s"
proof -
  from assms(2) have ne: "s \<noteq> []" by auto
  from assms(1,3) have ns: "\<forall>c\<in>set s. \<not> is_space c" by (auto simp: list_all_iff)
  with ne have "\<not> is_space (hd s)" "\<not> is_space (last s)" by simp_all
  moreover from ns is_space_nl have "10 \<notin> set s" "13 \<notin> set s" by auto
  ultimately show ?thesis using ne by (simp add: plain_line_def)
qed

lemma is_space_num:
  "is_space 10" "is_space 13" "\<not> is_space 48" "\<not> is_space 49" "\<not> is_space 50" "\<not> is_space 51"
  "\<not> is_space 52" "\<not> is_space 53" "\<not> is_space 54" "\<not> is_space 55" "\<not> is_space 56" "\<not> is_space 57"
  by (simp_all add: is_space_def)

lemma ex_file_read: "read_stock_list (Some ex_file) = {cp ''000001'', cp ''600519''}"
  by (simp add: read_stock_list_def ex_file_def cp_def strip_def is_space_num)

lemma main_file_after:
  "file_after (main U bot_token admin_chat_id updates current_time file) =
     (if bot_token = None \<or> bot_token = Some [] \<or> updates = [] then file
      else run_reconciler file (parse_updates U admin_chat_id current_time updates))"
  by (simp add: main_def run_reconciler_def Let_def)

lemma reconcile_no_clear:
  "\<not> should_clear st \<Longrightarrow> existing_after (reconcile E st) = E \<union> new_stocks st"
  by (auto simp: reconcile_def Let_def)

text \<open>
  What main passes to step 4 meets the side conditions used below: the set read from any
  file and the codes found in any batch are finite sets of plain lines, as long as no
  digit of the table is a whitespace character.
\<close>

lemma found_codes_plain:
  assumes "\<forall>c. re_digit U c \<longrightarrow> \<not> is_space c"
    and "s \<in> new_stocks (parse_updates U a now updates)"
  shows "plain_line s"
  using assms new_stocks_digits[OF assms(2)] by (blast intro: digits_plain)

lemma main_inputs_plain:
  assumes "\<forall>c. re_digit U c \<longrightarrow> \<not> is_space c"
  shows "finite (read_stock_list file \<union> new_stocks (parse_updates U a now updates)) \<and>
         (\<forall>s\<in>read_stock_list file \<union> new_stocks (parse_updates U a now updates).
            plain_line s)"
  using assms by (auto simp: finite_read finite_new_stocks dest: read_plain found_codes_plain)


subsection \<open>Claims about step 4 and the file\<close>

text \<open>
  C2: when a clear is requested, whatever the existing set is, the set kept in memory and
  the text written are exactly those of the codes found in the same batch: every prior
  entry is gone and every code of the batch survives. Read back, the file holds exactly
  the codes found (codes are finitely many plain lines). With the codes \<open>{"600970"}\<close> on a
  file of two other codes the result is the one line 600970.
\<close>

theorem clear_replaces_list:
  assumes "should_clear st"
  shows "existing_after (reconcile existing_stocks st) = new_stocks st \<and>
         written (reconcile existing_stocks st) = Some (write_stock_list (new_stocks st)) \<and>
         run_reconciler file st = Some (write_stock_list (new_stocks st)) \<and>
         (finite (new_stocks st) \<and> (\<forall>s\<in>new_stocks st. plain_line s) \<longrightarrow>
            read_stock_list (run_reconciler file st) = new_stocks st)"
  using assms
  by (simp add: reconcile_def run_reconciler_def commit_def Let_def read_written)

theorem clear_replaces_list_witness:
  "should_clear ex_clear_intent \<and>
   read_stock_list (Some ex_file) = {cp ''000001'', cp ''600519''} \<and>
   existing_after (reconcile (read_stock_list (Some ex_file)) ex_clear_intent) = {cp ''600970''} \<and>
   run_reconciler (Some ex_file) ex_clear_intent = Some (cp ''600970'' @ [10]) \<and>
   read_stock_list (run_reconciler (Some ex_file) ex_clear_intent) = {cp ''600970''}"
proof -
  have p: "finite (new_stocks ex_clear_intent) \<and> (\<forall>s\<in>new_stocks ex_clear_intent. plain_line s)"
    by (simp add: ex_clear_intent_def plain_line_def cp_def is_space_num)
  have c: "should_clear ex_clear_intent" by (simp add: ex_clear_intent_def)
  have w: "write_stock_list {cp ''600970''} = cp ''600970'' @ [10]"
    by (simp add: write_stock_list_def)
  have n: "new_stocks ex_clear_intent = {cp ''600970''}" by (simp add: ex_clear_intent_def)
  note t = clear_replaces_list[OF c, of "read_stock_list (Some ex_file)" "Some ex_file"]
  from t have e: "existing_after (reconcile (read_stock_list (Some ex_file)) ex_clear_intent) =
      new_stocks ex_clear_intent"
    and f: "run_reconciler (Some ex_file) ex_clear_intent =
      Some (write_stock_list (new_stocks ex_clear_intent))"
    by simp_all
  from t p have r: "read_stock_list (run_reconciler (Some ex_file) ex_clear_intent) =
      new_stocks ex_clear_intent"
    by blast
  from c ex_file_read e[unfolded n] f[unfolded n w] r[unfolded n] show ?thesis by blast
qed


text \<open>
  C3: without a clear, reconciling the codes \<open>A\<close> and then the codes \<open>B\<close> leaves the
  same file as reconciling \<open>A \<union> B\<close> once, from any starting file; on the sets kept in
  memory both give \<open>existing \<union> A \<union> B\<close>. The second run reads the file the first one
  wrote, which returns the first result because codes are plain lines.
\<close>

theorem union_law:
  assumes "\<not> should_clear a" and "\<not> should_clear b" and "\<not> should_clear ab"
    and "new_stocks ab = new_stocks a \<union> new_stocks b"
    and "finite (new_stocks a)" and "\<forall>s\<in>new_stocks a. plain_line s"
  shows "run_reconciler (run_reconciler file a) b = run_reconciler file ab \<and>
         existing_after (reconcile (existing_after (reconcile E a)) b) =
           existing_after (reconcile E ab)"
proof -
  let ?E = "read_stock_list file"
  have sets: "existing_after (reconcile (existing_after (reconcile E a)) b) =
                existing_after (reconcile E ab)"
    using assms(1-4) by (simp add: reconcile_no_clear Un_assoc)
  have files: "run_reconciler (run_reconciler file a) b = run_reconciler file ab"
  proof (cases "new_stocks a = {}")
    case True
    with assms(1) have "run_reconciler file a = file"
      by (simp add: run_reconciler_def reconcile_def commit_def)
    moreover from True assms(4) have "new_stocks ab = new_stocks b" by simp
    ultimately show ?thesis using assms(2,3)
      by (simp add: run_reconciler_def reconcile_def commit_def Let_def)
  next
    case False
    with assms(1) have fa: "run_reconciler file a = Some (write_stock_list (?E \<union> new_stocks a))"
      by (simp add: run_reconciler_def reconcile_def commit_def Let_def)
    have "finite (?E \<union> new_stocks a)" using assms(5) by (simp add: finite_read)
    moreover have "\<forall>s\<in>?E \<union> new_stocks a. plain_line s"
      using assms(6) by (auto dest: read_plain)
    ultimately have rd: "read_stock_list (run_reconciler file a) = ?E \<union> new_stocks a"
      unfolding fa by (rule read_written)
    from False assms(4) have ne: "new_stocks ab \<noteq> {}" by auto
    show ?thesis
    proof (cases "new_stocks b = {}")
      case True
      with assms(2) have "run_reconciler (run_reconciler file a) b = run_reconciler file a"
        by (simp add: run_reconciler_def reconcile_def commit_def)
      moreover from True assms(4) have "new_stocks ab = new_stocks a" by simp
      ultimately show ?thesis using assms(1,3) False fa
        by (simp add: run_reconciler_def reconcile_def commit_def Let_def)
    next
      case nb: False
      with assms(2) have "run_reconciler (run_reconciler file a) b =
          Some (write_stock_list (read_stock_list (run_reconciler file a) \<union> new_stocks b))"
        by (simp add: run_reconciler_def[of "run_reconciler file a"] reconcile_def commit_def Let_def)
      moreover from ne assms(3) have "run_reconciler file ab =
          Some (write_stock_list (?E \<union> new_stocks ab))"
        by (simp add: run_reconciler_def reconcile_def commit_def Let_def)
      ultimately show ?thesis by (simp add: rd assms(4) Un_assoc)
    qed
  qed
  from files sets show ?thesis by simp
qed

lemma ex_written:
  "write_stock_list ({cp ''000001'', cp ''600519''} \<union> {cp ''600970'', cp ''601088''}) =
     cp ''000001'' @ [10] @ cp ''600519'' @ [10] @ cp ''600970'' @ [10] @ cp ''601088'' @ [10]"
  by (simp add: write_stock_list_def cp_def)

lemma ex_sorted:
  "sorted_list_of_set ({cp ''000001'', cp ''600519''} \<union> {cp ''600970'', cp ''601088''}) =
     [cp ''000001'', cp ''600519'', cp ''600970'', cp ''601088'']"
  by (simp add: cp_def)

lemma plain_code: "plain_line (cp ''600970'')" "plain_line (cp ''601088'')"
  by (simp_all add: plain_line_def cp_def is_space_num)

theorem union_law_witness:
  "run_reconciler (run_reconciler (Some ex_file) (add_intent {cp ''600970''}))
       (add_intent {cp ''601088''}) =
     Some (cp ''000001'' @ [10] @ cp ''600519'' @ [10] @ cp ''600970'' @ [10] @ cp ''601088'' @ [10]) \<and>
   run_reconciler (Some ex_file) (add_intent {cp ''600970'', cp ''601088''}) =
     Some (cp ''000001'' @ [10] @ cp ''600519'' @ [10] @ cp ''600970'' @ [10] @ cp ''601088'' @ [10])"
proof -
  have one: "run_reconciler (Some ex_file) (add_intent {cp ''600970'', cp ''601088''}) =
      Some (cp ''000001'' @ [10] @ cp ''600519'' @ [10] @ cp ''600970'' @ [10] @ cp ''601088'' @ [10])"
    by (simp add: run_reconciler_def reconcile_def commit_def add_intent_def Let_def
        ex_file_read write_stock_list_def cp_def)
  have "run_reconciler (run_reconciler (Some ex_file) (add_intent {cp ''600970''}))
          (add_intent {cp ''601088''}) =
        run_reconciler (Some ex_file) (add_intent {cp ''600970'', cp ''601088''})"
  proof -
    have nc: "\<not> should_clear (add_intent A)" for A by (simp add: add_intent_def)
    have u: "new_stocks (add_intent {cp ''600970'', cp ''601088''}) =
        new_stocks (add_intent {cp ''600970''}) \<union> new_stocks (add_intent {cp ''601088''})"
      by (auto simp: add_intent_def)
    have f: "finite (new_stocks (add_intent {cp ''600970''}))" by (simp add: add_intent_def)
    have p: "\<forall>s\<in>new_stocks (add_intent {cp ''600970''}). plain_line s"
      by (simp add: add_intent_def plain_code)
    from union_law[OF nc nc nc u f p, of "Some ex_file" "{}"] show ?thesis by blast
  qed
  with one show ?thesis by simp
qed

text \<open>
  C4: the file is written exactly when a clear is requested or at least one code was found.
  With neither, the file stays as it is and the set is unchanged; a clear without codes
  still writes, and what it writes is the empty text.
\<close>

theorem write_iff_change:
  "(written (reconcile E st) \<noteq> None \<longleftrightarrow> should_clear st \<or> new_stocks st \<noteq> {}) \<and>
   (list_changed (reconcile E st) \<longleftrightarrow> should_clear st \<or> new_stocks st \<noteq> {}) \<and>
   (\<not> should_clear st \<and> new_stocks st = {} \<longrightarrow>
      run_reconciler file st = file \<and> existing_after (reconcile E st) = E) \<and>
   (should_clear st \<and> new_stocks st = {} \<longrightarrow>
      written (reconcile E st) = Some [] \<and> run_reconciler file st = Some [] \<and>
      existing_after (reconcile E st) = {})"
  by (auto simp: reconcile_def run_reconciler_def commit_def write_stock_list_def Let_def)

theorem write_iff_change_witness:
  "run_reconciler (Some ex_file) (add_intent {}) = Some ex_file \<and>
   written (reconcile (read_stock_list (Some ex_file)) (add_intent {})) = None \<and>
   existing_after (reconcile (read_stock_list (Some ex_file)) (add_intent {})) =
     {cp ''000001'', cp ''600519''} \<and>
   run_reconciler (Some ex_file) ((add_intent {})\<lparr> should_clear := True \<rparr>) = Some [] \<and>
   written (reconcile (read_stock_list (Some ex_file)) (add_intent {cp ''600970''})) \<noteq> None"
  using write_iff_change[of "read_stock_list (Some ex_file)" "add_intent {}" "Some ex_file"]
    write_iff_change[of "read_stock_list (Some ex_file)" "(add_intent {})\<lparr> should_clear := True \<rparr>"
      "Some ex_file"]
    write_iff_change[of "read_stock_list (Some ex_file)" "add_intent {cp ''600970''}" "Some ex_file"]
  by (simp add: add_intent_def ex_file_read)

lemma stock_code_plain:
  assumes "\<forall>c. d c \<longrightarrow> \<not> is_space c" and "is_stock_code d s"
  shows "plain_line s"
  using assms by (auto simp: is_stock_code_def intro: digits_plain)

lemma ascii_digits_no_space: "\<forall>c. re_digit ascii_db c \<longrightarrow> \<not> is_space c"
  by (auto simp: digit_ascii is_space_def)

lemma ex_junk_read: "read_stock_list (Some ex_junk_file) = {cp ''hello world''}"
  by (simp add: read_stock_list_def ex_junk_file_def cp_def strip_def is_space_def)

text \<open>
  C6, as the spec states it: every write leaves one StockCode per line. The lines of the
  previous file are taken over as they are, so a line that is no stock code is written
  back: main, run on a file with the one line "hello world" and a message with the code
  600970, leaves the two lines 600970 and hello world.
\<close>

theorem written_file_junk_line_counterexample:
  "file_after (main ascii_db (Some (cp ''token'')) None
       [mk_update 1 (cp ''42'') (cp ''600970'') 0] 0 (Some ex_junk_file)) =
     Some (cp ''600970'' @ [10] @ cp ''hello world'' @ [10]) \<and>
   file_lines (cp ''600970'' @ [10] @ cp ''hello world'' @ [10]) =
     [cp ''600970'' @ [10], cp ''hello world'' @ [10]] \<and>
   \<not> is_stock_code (re_digit ascii_db) (cp ''hello world'')"
proof -
  have st: "parse_updates ascii_db None 0 [mk_update 1 (cp ''42'') (cp ''600970'') 0] =
      \<lparr> new_stocks = {cp ''600970''}, latest_update_id = 1,
        should_clear = False, should_view = False \<rparr>"
    by (simp add: eval_defs)
  have w: "write_stock_list (insert (cp ''600970'') {cp ''hello world''}) =
      cp ''600970'' @ [10] @ cp ''hello world'' @ [10]"
    by (simp add: write_stock_list_def cp_def)
  have t: "cp ''token'' \<noteq> []" by (simp add: cp_def)
  have "file_after (main ascii_db (Some (cp ''token'')) None
       [mk_update 1 (cp ''42'') (cp ''600970'') 0] 0 (Some ex_junk_file)) =
     Some (cp ''600970'' @ [10] @ cp ''hello world'' @ [10])"
    unfolding main_def st ex_junk_read
    by (simp add: t reconcile_def commit_def Let_def w)
  moreover have "file_lines (cp ''600970'' @ [10] @ cp ''hello world'' @ [10]) =
     [cp ''600970'' @ [10], cp ''hello world'' @ [10]]"
    by (simp add: cp_def)
  moreover have "\<not> is_stock_code (re_digit ascii_db) (cp ''hello world'')"
    by (simp add: is_stock_code_def cp_def)
  ultimately show ?thesis by blast
qed

text \<open>
  C6, amended: every write of step 4 leaves on disk exactly the final set in ascending
  sorted order, one entry per line, each line ended by a newline, without duplicates and
  with nothing before, between or after these lines; read again, the file gives the
  final set. Each entry is a code found in this batch or a stripped, non-empty line of the
  previous file: all lines are StockCodes when those of the previous file were, and
  always after a clear. The file main leaves behind is this file. (The codes of an
  intent are finitely many strings of six digits, and no digit is a whitespace
  character.)
\<close>

theorem written_file_invariant:
  fixes "file" :: "pystr option" and st :: intent and F :: "pystr set"
  defines "F \<equiv> existing_after (reconcile (read_stock_list file) st)"
  assumes sane: "\<forall>c. re_digit U c \<longrightarrow> \<not> is_space c"
    and fin: "finite (new_stocks st)"
    and codes: "\<forall>s\<in>new_stocks st. is_stock_code (re_digit U) s"
    and change: "should_clear st \<or> new_stocks st \<noteq> {}"
  shows "run_reconciler file st = Some (concat (map (\<lambda>s. s @ [10]) (sorted_list_of_set F))) \<and>
         file_lines (concat (map (\<lambda>s. s @ [10]) (sorted_list_of_set F))) =
           map (\<lambda>s. s @ [10]) (sorted_list_of_set F) \<and>
         sorted_wrt (<) (sorted_list_of_set F) \<and>
         distinct (sorted_list_of_set F) \<and>
         set (sorted_list_of_set F) = F \<and>
         read_stock_list (run_reconciler file st) = F \<and>
         (\<forall>s\<in>F. is_stock_code (re_digit U) s \<or> s \<in> read_stock_list file) \<and>
         (should_clear st \<or> (\<forall>s\<in>read_stock_list file. is_stock_code (re_digit U) s) \<longrightarrow>
            (\<forall>s\<in>F. is_stock_code (re_digit U) s)) \<and>
         (bot_token \<noteq> None \<and> bot_token \<noteq> Some [] \<and> updates \<noteq> [] \<and>
          st = parse_updates U admin_chat_id current_time updates \<longrightarrow>
            file_after (main U bot_token admin_chat_id updates current_time file) =
              run_reconciler file st)"
proof -
  let ?E = "read_stock_list file"
  have F: "F = (if should_clear st then new_stocks st else ?E \<union> new_stocks st)"
    using change by (auto simp: F_def reconcile_def Let_def)
  have run: "run_reconciler file st = Some (write_stock_list F)"
    using change by (auto simp: F_def run_reconciler_def reconcile_def commit_def Let_def)
  have sub: "F \<subseteq> ?E \<union> new_stocks st" by (auto simp: F)
  have finF: "finite F" using fin by (simp add: F finite_read)
  have plainF: "\<forall>s\<in>F. plain_line s"
    using sub codes sane by (blast dest: read_plain intro: stock_code_plain)
  have setF: "set (sorted_list_of_set F) = F" using finF by simp
  have "\<forall>s\<in>set (sorted_list_of_set F). 10 \<notin> set s"
    using plainF setF by (auto simp: plain_line_def)
  then have lines: "file_lines (concat (map (\<lambda>s. s @ [10]) (sorted_list_of_set F))) =
      map (\<lambda>s. s @ [10]) (sorted_list_of_set F)"
    by (rule file_lines_written)
  have reread: "read_stock_list (run_reconciler file st) = F"
    unfolding run using finF plainF by (rule read_written)
  have origin: "\<forall>s\<in>F. is_stock_code (re_digit U) s \<or> s \<in> ?E"
    using sub codes by blast
  have allcodes: "should_clear st \<or> (\<forall>s\<in>?E. is_stock_code (re_digit U) s) \<longrightarrow>
      (\<forall>s\<in>F. is_stock_code (re_digit U) s)"
    using codes by (auto simp: F)
  have prog: "bot_token \<noteq> None \<and> bot_token \<noteq> Some [] \<and> updates \<noteq> [] \<and>
      st = parse_updates U admin_chat_id current_time updates \<longrightarrow>
        file_after (main U bot_token admin_chat_id updates current_time file) =
          run_reconciler file st"
    by (simp add: main_file_after)
  from run lines setF reread origin allcodes prog show ?thesis
    by (simp add: write_stock_list_def)
qed

theorem written_file_invariant_witness:
  "file_after (main ascii_db (Some (cp ''token'')) (Some (cp ''42'')) (ex_before @ [ex_intruder])
       1000000 (Some ex_file)) =
     Some (cp ''000001'' @ [10] @ cp ''600519'' @ [10] @ cp ''600970'' @ [10] @ cp ''601088'' @ [10]) \<and>
   file_lines (cp ''000001'' @ [10] @ cp ''600519'' @ [10] @ cp ''600970'' @ [10] @ cp ''601088'' @ [10]) =
     [cp ''000001'' @ [10], cp ''600519'' @ [10], cp ''600970'' @ [10], cp ''601088'' @ [10]] \<and>
   read_stock_list (file_after (main ascii_db (Some (cp ''token'')) (Some (cp ''42''))
       (ex_before @ [ex_intruder]) 1000000 (Some ex_file))) =
     {cp ''000001'', cp ''600519''} \<union> {cp ''600970'', cp ''601088''}"
proof -
  let ?st = "parse_updates ascii_db (Some (cp ''42'')) 1000000 (ex_before @ [ex_intruder])"
  let ?F = "existing_after (reconcile (read_stock_list (Some ex_file)) ?st)"
  let ?c = "cp ''000001'' @ [10] @ cp ''600519'' @ [10] @ cp ''600970'' @ [10] @ cp ''601088'' @ [10]"
  let ?m = "file_after (main ascii_db (Some (cp ''token'')) (Some (cp ''42''))
       (ex_before @ [ex_intruder]) 1000000 (Some ex_file))"
  have codes: "\<forall>s\<in>new_stocks ?st. is_stock_code (re_digit ascii_db) s"
    using new_stocks_digits by (auto simp: is_stock_code_def)
  have change: "should_clear ?st \<or> new_stocks ?st \<noteq> {}"
    unfolding ex_batch_intent by simp
  have t: "Some (cp ''token'') \<noteq> None \<and> Some (cp ''token'') \<noteq> Some [] \<and>
      ex_before @ [ex_intruder] \<noteq> [] \<and> ?st = ?st"
    by (simp add: cp_def)
  have e: "?F = {cp ''000001'', cp ''600519''} \<union> {cp ''600970'', cp ''601088''}"
    unfolding ex_batch_intent ex_file_read by (simp add: reconcile_def Let_def)
  note inv = written_file_invariant[OF ascii_digits_no_space finite_new_stocks codes change,
      of "Some ex_file" "Some (cp ''token'')" "ex_before @ [ex_intruder]" "Some (cp ''42'')" 1000000]
  from inv t have m: "?m = run_reconciler (Some ex_file) ?st" by blast
  from inv have r: "run_reconciler (Some ex_file) ?st =
      Some (concat (map (\<lambda>s. s @ [10]) (sorted_list_of_set ?F)))" by blast
  from inv have l: "file_lines (concat (map (\<lambda>s. s @ [10]) (sorted_list_of_set ?F))) =
      map (\<lambda>s. s @ [10]) (sorted_list_of_set ?F)" by blast
  from inv have b: "read_stock_list (run_reconciler (Some ex_file) ?st) = ?F" by blast
  have c: "concat (map (\<lambda>s. s @ [10]) (sorted_list_of_set ?F)) = ?c"
    unfolding e ex_sorted by simp
  have l': "file_lines ?c =
      [cp ''000001'' @ [10], cp ''600519'' @ [10], cp ''600970'' @ [10], cp ''601088'' @ [10]]"
    using l unfolding c unfolding e ex_sorted by simp
  from m r c have "?m = Some ?c" by simp
  moreover from m b e have "read_stock_list ?m =
      {cp ''000001'', cp ''600519''} \<union> {cp ''600970'', cp ''601088''}" by simp
  ultimately show ?thesis using l' by blast
qed


section \<open>Properties of the row store operations\<close>

lemma find_from_none:
  "find_from n sh q = Inl e \<longleftrightarrow> e = CellNotFound \<and> (\<forall>row\<in>set sh. PStr q \<notin> set row)"
  by (induction sh arbitrary: n) auto

lemma find_from_first:
  "find_from n sh q = Inr r \<Longrightarrow>
   \<exists>i<length sh. r = n + i \<and> PStr q \<in> set (sh ! i) \<and> (\<forall>j<i. PStr q \<notin> set (sh ! j))"
proof (induction sh arbitrary: n)
  case Nil
  then show ?case by simp
next
  case (Cons row rows)
  show ?case
  proof (cases "PStr q \<in> set row")
    case True
    with Cons.prems show ?thesis by (intro exI[of _ 0]) simp
  next
    case False
    with Cons.prems have "find_from (Suc n) rows q = Inr r" by simp
    from Cons.IH[OF this] obtain i where i: "i < length rows" "r = Suc n + i"
      "PStr q \<in> set (rows ! i)" "\<forall>j<i. PStr q \<notin> set (rows ! j)"
      by blast
    have "\<forall>j<Suc i. PStr q \<notin> set ((row # rows) ! j)"
      using False i(4) by (auto simp: less_Suc_eq_0_disj)
    with i show ?thesis by (intro exI[of _ "Suc i"]) simp
  qed
qed

lemma sheet_find_cases:
  "(sheet_find sh q = Inl CellNotFound \<and> (\<forall>row\<in>set sh. PStr q \<notin> set row)) \<or>
   (\<exists>i<length sh. sheet_find sh q = Inr (Suc i) \<and> PStr q \<in> set (sh ! i) \<and>
      (\<forall>j<i. PStr q \<notin> set (sh ! j)))"
proof (cases "sheet_find sh q")
  case (Inl e)
  then show ?thesis by (simp add: sheet_find_def find_from_none)
next
  case (Inr r)
  then show ?thesis using find_from_first[of 1 sh q r] by (auto simp: sheet_find_def)
qed

lemma row_shapes:
  "row = [] \<or> (\<exists>x. row = [x]) \<or> (\<exists>x y. row = [x, y]) \<or> (\<exists>x y z. row = [x, y, z]) \<or>
   (\<exists>x y z w r. row = x # y # z # w # r)"
  by (metis list.exhaust)

lemma set_cols_234:
  "set_col (set_col (set_col row 2 a) 3 b) 4 c = key_cell row # [a, b, c] @ drop 4 row"
  using row_shapes[of row] by (auto simp: set_col_def key_cell_def eval_nat_numeral)

lemma update_three:
  assumes "i < length sh"
  shows "(case update_cell sh (Suc i) 2 a of
            Inl e \<Rightarrow> Inl e
          | Inr sh1 \<Rightarrow>
              (case update_cell sh1 (Suc i) 3 b of
                 Inl e \<Rightarrow> Inl e
               | Inr sh2 \<Rightarrow>
                   (case update_cell sh2 (Suc i) 4 c of
                      Inl e \<Rightarrow> Inl e
                    | Inr sh3 \<Rightarrow> Inr (sh3, msg)))) =
         Inr (sh[i := key_cell (sh ! i) # [a, b, c] @ drop 4 (sh ! i)], msg)"
  using assms by (simp add: update_cell_def set_cols_234)

lemma add_or_update_eq:
  "add_or_update_stock today sh code date qty price =
     (case sheet_find sh code of
        Inr r \<Rightarrow>
          Inr (sh[r - 1 := key_cell (sh ! (r - 1)) #
                 [py_or date (PStr today), py_or qty (PInt 0), py_or price (PFloat 0)] @
                 drop 4 (sh ! (r - 1))], cp ''Updated'')
      | Inl e \<Rightarrow>
          Inr (sh @ [[PStr code, py_or date (PStr today), py_or qty (PInt 0),
                      py_or price (PFloat 0)]], cp ''Added''))"
  using sheet_find_cases[of sh code]
  by (auto simp: add_or_update_stock_def Let_def update_three append_row_def)

text \<open>
  What the two methods do for every sheet: the row they act on is the first row that
  holds the code in any of its cells.
\<close>

lemma add_or_update_by_cell:
  "((\<forall>row\<in>set sh. PStr code \<notin> set row) \<longrightarrow>
      add_or_update_stock today sh code date qty price =
        Inr (sh @ [[PStr code, py_or date (PStr today), py_or qty (PInt 0),
                    py_or price (PFloat 0)]], cp ''Added'')) \<and>
   ((\<exists>row\<in>set sh. PStr code \<in> set row) \<longrightarrow>
      (\<exists>i<length sh. PStr code \<in> set (sh ! i) \<and> (\<forall>j<i. PStr code \<notin> set (sh ! j)) \<and>
         add_or_update_stock today sh code date qty price =
           Inr (sh[i := key_cell (sh ! i) #
                  [py_or date (PStr today), py_or qty (PInt 0), py_or price (PFloat 0)] @
                  drop 4 (sh ! i)], cp ''Updated'')))"
  using sheet_find_cases[of sh code]
  by (auto simp: add_or_update_eq)

lemma remove_by_cell:
  "((\<forall>row\<in>set sh. PStr code \<notin> set row) \<longrightarrow> remove_stock sh code = Inr (sh, False)) \<and>
   ((\<exists>row\<in>set sh. PStr code \<in> set row) \<longrightarrow>
      (\<exists>i<length sh. PStr code \<in> set (sh ! i) \<and> (\<forall>j<i. PStr code \<notin> set (sh ! j)) \<and>
         remove_stock sh code = Inr (take i sh @ drop (Suc i) sh, True)))"
  using sheet_find_cases[of sh code]
  by (auto simp: remove_stock_def delete_rows_def)

lemma ex_sheet_find:
  "sheet_find [ex_header] (cp ''600970'') = Inl CellNotFound"
  "sheet_find ex_sheet (cp ''600970'') = Inr 2"
  "sheet_find ex_sheet (cp ''100'') = Inr 2"
  by (simp_all add: sheet_find_def ex_sheet_def ex_header_def ex_row_def ex_today_def cp_def)

text \<open>
  The scenario of the spec: on a sheet with only the header, adding 600970 with qty "100"
  appends one row and returns "Added"; adding it again with qty "200" returns "Updated"
  and leaves one data row, which holds "200".
\<close>

lemma add_or_update_scenario:
  "add_or_update_stock ex_today [ex_header] (cp ''600970'') PNone (PStr (cp ''100'')) PNone =
     Inr (ex_sheet, cp ''Added'') \<and>
   add_or_update_stock ex_today ex_sheet (cp ''600970'') PNone (PStr (cp ''200'')) PNone =
     Inr ([ex_header, ex_row (cp ''600970'') (cp ''200'')], cp ''Updated'')"
proof -
  have v: "py_or PNone (PStr ex_today) = PStr ex_today" "py_or PNone (PFloat 0) = PFloat 0"
    "py_or (PStr (cp ''100'')) (PInt 0) = PStr (cp ''100'')"
    "py_or (PStr (cp ''200'')) (PInt 0) = PStr (cp ''200'')"
    by (simp_all add: py_or_def cp_def)
  show ?thesis
    unfolding add_or_update_eq ex_sheet_find v
    by (simp add: ex_sheet_def ex_row_def key_cell_def)
qed


subsection \<open>Claims about the row store\<close>

text \<open>
  C5 asks that the row is located by an exact match of the code in the first column, and
  that a row is appended and "Added" returned when no row has the code there. The source
  says so in its comment on \<open>find\<close>, but calls \<open>find(code)\<close> without a column, so that a
  cell of any column matches. On the sheet whose only data row is 600970 with qty "100",
  no first column holds the code 100; \<open>add_or_update_stock\<close> for the code 100 still
  appends nothing: it overwrites columns 2 to 4 of the row of 600970 and returns
  "Updated".
\<close>

theorem add_or_update_hits_other_column:
  "map key_cell ex_sheet = [PStr (cp ''Code''), PStr (cp ''600970'')] \<and>
   add_or_update_stock ex_today ex_sheet (cp ''100'') PNone (PStr (cp ''5'')) PNone =
     Inr ([ex_header, ex_row (cp ''600970'') (cp ''5'')], cp ''Updated'')"
proof -
  have v: "py_or PNone (PStr ex_today) = PStr ex_today" "py_or PNone (PFloat 0) = PFloat 0"
    "py_or (PStr (cp ''5'')) (PInt 0) = PStr (cp ''5'')"
    by (simp_all add: py_or_def cp_def)
  have "add_or_update_stock ex_today ex_sheet (cp ''100'') PNone (PStr (cp ''5'')) PNone =
     Inr ([ex_header, ex_row (cp ''600970'') (cp ''5'')], cp ''Updated'')"
    unfolding add_or_update_eq ex_sheet_find v
    by (simp add: ex_sheet_def ex_row_def key_cell_def)
  then show ?thesis by (simp add: ex_sheet_def ex_header_def ex_row_def key_cell_def)
qed

text \<open>
  C8 asks that \<open>remove_stock\<close> returns \<open>False\<close> and leaves the sheet unchanged when no
  row has the code. The lookup is the same \<open>find\<close> without a column: on the sheet whose
  only data row is 600970 with qty "100", no row has the code 100, yet \<open>remove_stock\<close>
  for the code 100 returns \<open>True\<close> and deletes the row of 600970.
\<close>

theorem remove_hits_other_column:
  "map key_cell ex_sheet = [PStr (cp ''Code''), PStr (cp ''600970'')] \<and>
   remove_stock ex_sheet (cp ''100'') = Inr ([ex_header], True)"
  by (simp add: remove_stock_def ex_sheet_find delete_rows_def)
     (simp add: ex_sheet_def ex_header_def ex_row_def key_cell_def)

text \<open>
  C10: the value stored in each of the columns 2 to 4 is the argument when it is truthy and
  the default (today's date, 0, 0.0) otherwise; the falsy values are \<open>None\<close>, \<open>False\<close>,
  the integer 0, the float 0.0 and the empty string. So qty 0, price 0 and the date \<open>""\<close>
  are replaced by the defaults, and the string "0" is stored as given.
\<close>

theorem falsy_arguments_defaulted:
  "add_or_update_stock today sh code date qty price =
     (case sheet_find sh code of
        Inr r \<Rightarrow>
          Inr (sh[r - 1 := key_cell (sh ! (r - 1)) #
                 [if truthy date then date else PStr today,
                  if truthy qty then qty else PInt 0,
                  if truthy price then price else PFloat 0] @
                 drop 4 (sh ! (r - 1))], cp ''Updated'')
      | Inl e \<Rightarrow>
          Inr (sh @ [[PStr code,
                      if truthy date then date else PStr today,
                      if truthy qty then qty else PInt 0,
                      if truthy price then price else PFloat 0]], cp ''Added'')) \<and>
   (truthy v \<longleftrightarrow> v \<noteq> PNone \<and> v \<noteq> PBool False \<and> v \<noteq> PInt 0 \<and> v \<noteq> PFloat 0 \<and> v \<noteq> PStr [])"
proof -
  have "truthy v \<longleftrightarrow> v \<noteq> PNone \<and> v \<noteq> PBool False \<and> v \<noteq> PInt 0 \<and> v \<noteq> PFloat 0 \<and> v \<noteq> PStr []"
    by (cases v) auto
  then show ?thesis unfolding add_or_update_eq py_or_def by blast
qed

theorem falsy_arguments_defaulted_witness:
  "add_or_update_stock ex_today [ex_header] (cp ''600970'') (PStr []) (PInt 0) (PInt 0) =
     Inr ([ex_header, [PStr (cp ''600970''), PStr ex_today, PInt 0, PFloat 0]], cp ''Added'') \<and>
   add_or_update_stock ex_today [ex_header] (cp ''600970'') PNone (PStr (cp ''0'')) (PFloat 2.5) =
     Inr ([ex_header, [PStr (cp ''600970''), PStr ex_today, PStr (cp ''0''), PFloat 2.5]],
          cp ''Added'')"
proof -
  have f: "sheet_find [ex_header] (cp ''600970'') = Inl CellNotFound"
    by (rule ex_sheet_find)
  have t: "cp ''0'' \<noteq> []" by (simp add: cp_def)
  from falsy_arguments_defaulted[of ex_today "[ex_header]" "cp ''600970''" "PStr []" "PInt 0" "PInt 0" PNone]
    falsy_arguments_defaulted[of ex_today "[ex_header]" "cp ''600970''" PNone "PStr (cp ''0'')" "PFloat 2.5" PNone]
  show ?thesis by (simp add: f t)
qed

lemma get_all_stocks_fold:
  "get_all_stocks fr today (Some rows) = foldl (stocks_step fr today) [] rows"
  by (simp add: get_all_stocks_def)

lemma stocks_step_distinct:
  "distinct (map fst stocks) \<Longrightarrow> distinct (map fst (stocks_step fr today stocks row))"
  by (simp add: stocks_step_def distinct_update split: option.split)

lemma stocks_fold_distinct:
  "distinct (map fst stocks) \<Longrightarrow> distinct (map fst (foldl (stocks_step fr today) stocks rows))"
  by (induction rows arbitrary: stocks) (simp_all add: stocks_step_distinct)

lemma stocks_step_lookup:
  "map_of (stocks_step fr today stocks row) code =
     (if row_code fr row = Some code then Some (row_info fr today row) else map_of stocks code)"
  by (auto simp: stocks_step_def update_conv' split: option.split)

lemma stocks_fold_lookup:
  "map_of (foldl (stocks_step fr today) stocks rows) code =
     (case filter (\<lambda>row. row_code fr row = Some code) rows of
        [] \<Rightarrow> map_of stocks code
      | r # rs \<Rightarrow> Some (row_info fr today (last (r # rs))))"
proof (induction rows arbitrary: stocks)
  case Nil
  then show ?case by simp
next
  case (Cons row rows)
  show ?case
    by (cases "filter (\<lambda>row. row_code fr row = Some code) rows")
       (simp_all add: Cons.IH stocks_step_lookup)
qed

text \<open>
  C9: the dictionary \<open>get_all_stocks\<close> returns has at most one entry per code, and the
  entry of a code is built from the last row, in sheet order, whose stripped code it is;
  earlier rows with that code leave no trace.
\<close>

theorem get_all_stocks_last_row_wins:
  "distinct (map fst (get_all_stocks fr today records)) \<and>
   map_of (get_all_stocks fr today (Some rows)) code =
     (case filter (\<lambda>row. row_code fr row = Some code) rows of
        [] \<Rightarrow> None
      | r # rs \<Rightarrow> Some (row_info fr today (last (r # rs))))"
proof -
  have "distinct (map fst (get_all_stocks fr today records))"
    by (cases records) (simp_all add: get_all_stocks_def[of _ _ None] get_all_stocks_fold stocks_fold_distinct)
  then show ?thesis by (simp add: get_all_stocks_fold stocks_fold_lookup split: list.split)
qed

lemmas sheet_eval = row_code_def row_info_def cp_def dict_get_def py_str_def strip_def
  is_space_def dec_nat.simps str_or_def Let_def

lemma ex_row_codes:
  "row_code (\<lambda>x. []) ex_rec1 = Some (cp ''600970'')"
  "row_code (\<lambda>x. []) ex_rec2 = None"
  "row_code (\<lambda>x. []) ex_rec3 = Some (cp ''600970'')"
  by (simp_all add: ex_rec1_def ex_rec2_def ex_rec3_def sheet_eval)

lemma ex_row_info:
  "row_info (\<lambda>x. []) ex_today ex_rec3 =
     \<lparr> s_date = ex_today, s_qty = cp ''200'', s_price = cp ''0.0'' \<rparr>"
  by (simp add: ex_rec3_def sheet_eval)

theorem get_all_stocks_last_row_wins_witness:
  "map_of (get_all_stocks (\<lambda>x. []) ex_today (Some [ex_rec1, ex_rec2, ex_rec3])) (cp ''600970'') =
     Some \<lparr> s_date = ex_today, s_qty = cp ''200'', s_price = cp ''0.0'' \<rparr> \<and>
   get_all_stocks (\<lambda>x. []) ex_today (Some [ex_rec1, ex_rec2, ex_rec3]) =
     [(cp ''600970'', \<lparr> s_date = ex_today, s_qty = cp ''200'', s_price = cp ''0.0'' \<rparr>)]"
proof -
  have "map_of (get_all_stocks (\<lambda>x. []) ex_today (Some [ex_rec1, ex_rec2, ex_rec3])) (cp ''600970'') =
      Some (row_info (\<lambda>x. []) ex_today ex_rec3)"
    using get_all_stocks_last_row_wins[of "\<lambda>x. []" ex_today "Some [ex_rec1, ex_rec2, ex_rec3]"
        "[ex_rec1, ex_rec2, ex_rec3]" "cp ''600970''"]
    by (simp add: ex_row_codes)
  moreover have "get_all_stocks (\<lambda>x. []) ex_today (Some [ex_rec1, ex_rec2, ex_rec3]) =
      [(cp ''600970'', row_info (\<lambda>x. []) ex_today ex_rec3)]"
    by (simp add: get_all_stocks_def stocks_step_def ex_row_codes)
  ultimately show ?thesis by (simp add: ex_row_info)
qed

end
